theory Spec2Isabelle
  imports Complex_Main "HOL-Library.Sublist"
begin

section \<open>Python values\<close>

text \<open>
  A Python \<open>str\<close> is a sequence of Unicode code points; \<open>len\<close>, slicing and iteration
  count code points.  Isabelle's \<open>char\<close> is a byte, so a \<open>str\<close> is modelled as the list
  of its code points.
\<close>

type_synonym pystr = "nat list"

text \<open>The messages of the \<open>ValueError\<close>s raised in the repository, kept structured.\<close>

datatype value_msg =
    ConversationNotFound int    \<comment> \<open>"Conversation {id} not found"\<close>
  | MessageNotFound int         \<comment> \<open>"Message {id} not found"\<close>
  | NoFieldProvided             \<comment> \<open>"At least one field must be provided to ..."\<close>
  | MissingRoleOrContent        \<comment> \<open>"Each message must contain 'role' and 'content'"\<close>
  | ModelNameRequired           \<comment> \<open>"model_name is required"\<close>

text \<open>
  The exceptions that the modelled code can raise.  \<open>IntegrityError\<close> is
  \<open>sqlite3.IntegrityError\<close> (a constraint of the schema failed);
  \<open>ResponseNotRead\<close> is \<open>httpx.ResponseNotRead\<close>.
\<close>

datatype py_error =
    ValueError value_msg
  | IntegrityError
  | LLMClientError pystr
  | AttributeError
  | TypeError
  | KeyError
  | ResponseNotRead

text \<open>\<open>str.strip()\<close> removes the code points for which \<open>str.isspace\<close> holds.\<close>

definition isspace :: "nat \<Rightarrow> bool" where
  "isspace c \<longleftrightarrow>
     (9 \<le> c \<and> c \<le> 13) \<or> (28 \<le> c \<and> c \<le> 32) \<or> c = 133 \<or> c = 160 \<or> c = 5760 \<or>
     (8192 \<le> c \<and> c \<le> 8202) \<or> c = 8232 \<or> c = 8233 \<or> c = 8239 \<or> c = 8287 \<or>
     c = 12288"

definition strip :: "pystr \<Rightarrow> pystr" where
  "strip s = rev (dropWhile isspace (rev (dropWhile isspace s)))"

text \<open>\<open>s.startswith(p)\<close> and \<open>k in s\<close> (contiguous containment).\<close>

definition startswith :: "pystr \<Rightarrow> pystr \<Rightarrow> bool" where
  "startswith s p \<longleftrightarrow> take (length p) s = p"

fun contains :: "pystr \<Rightarrow> pystr \<Rightarrow> bool" where
  "contains [] k = (k = [])"
| "contains (c # s) k = (startswith (c # s) k \<or> contains s k)"

section \<open>The message tree store (database/crud.py)\<close>

datatype role = User | Assistant | System
  \<comment> \<open>the column \<open>role\<close> with its CHECK (role IN ('user', 'assistant', 'system'))\<close>

text \<open>
  The dataclasses \<open>Conversation\<close>, \<open>Message\<close> and \<open>Config\<close>.  The field \<open>id\<close> is
  named \<open>conv_id\<close>, \<open>msg_id\<close>, \<open>cfg_id\<close> (\<open>id\<close> is the identity function of HOL), and
  the \<open>created_at\<close> of a conversation is \<open>conv_created_at\<close>.
\<close>

record conversation =
  conv_id :: int
  title :: pystr
  conv_created_at :: pystr

record message =
  msg_id :: int
  conversation_id :: int
  role :: role
  content :: pystr
  order_index :: int
  summary :: "pystr option"
  parent_id :: "int option"
  assistant_reply :: "pystr option"
  created_at :: pystr

record config =
  cfg_id :: int
  api_key :: "pystr option"
  base_url :: "pystr option"
  model_name :: pystr
  temperature :: real
  updated_at :: pystr

text \<open>
  The SQLite database: the rows of the three tables in insertion order, the
  \<open>sqlite_sequence\<close> counters of the two AUTOINCREMENT keys, and the clock that
  \<open>CURRENT_TIMESTAMP\<close> reads.  Every function of crud.py opens its own connection,
  commits on success and rolls back on an exception, so an operation maps a database to
  an error (database unchanged) or to a result with the new database.
\<close>

record db =
  conversations :: "conversation list"
  messages :: "message list"
  configs :: "config option"
  conv_seq :: int
  msg_seq :: int
  now :: pystr

definition conv_ids :: "db \<Rightarrow> int list" where
  "conv_ids d = map conv_id (conversations d)"

definition msg_ids :: "db \<Rightarrow> int list" where
  "msg_ids d = map msg_id (messages d)"

text \<open>The key of the unique index \<open>idx_messages_conversation_order\<close>.\<close>

definition order_key :: "message \<Rightarrow> int \<times> int" where
  "order_key m = (conversation_id m, order_index m)"

text \<open>
  The constraints that the schema of \<open>init_db\<close> enforces on every stored state: the two
  primary keys, the two foreign keys of \<open>messages\<close> (with \<open>PRAGMA foreign_keys = ON\<close>),
  and the unique index on \<open>(conversation_id, order_index)\<close>.
\<close>

definition db_ok :: "db \<Rightarrow> bool" where
  "db_ok d \<longleftrightarrow>
     distinct (conv_ids d) \<and> distinct (msg_ids d) \<and>
     list_all (\<lambda>m. conversation_id m \<in> set (conv_ids d)) (messages d) \<and>
     list_all (\<lambda>m. case parent_id m of None \<Rightarrow> True | Some p \<Rightarrow> p \<in> set (msg_ids d)) (messages d) \<and>
     distinct (map order_key (messages d))"

definition get_conversation :: "db \<Rightarrow> int \<Rightarrow> py_error + conversation" where
  "get_conversation d conversation_id' =
     (case find (\<lambda>c. conv_id c = conversation_id') (conversations d) of
        None \<Rightarrow> Inl (ValueError (ConversationNotFound conversation_id'))
      | Some row \<Rightarrow> Inr row)"

definition update_conversation :: "db \<Rightarrow> int \<Rightarrow> pystr option \<Rightarrow> py_error + conversation \<times> db" where
  "update_conversation d conversation_id' title' =
     (case title' of
        None \<Rightarrow> Inl (ValueError NoFieldProvided)
      | Some t \<Rightarrow>
          (let d' = d\<lparr>conversations :=
                      map (\<lambda>c. if conv_id c = conversation_id' then c\<lparr>title := t\<rparr> else c)
                        (conversations d)\<rparr>
           in case get_conversation d' conversation_id' of
                Inl e \<Rightarrow> Inl e
              | Inr c \<Rightarrow> Inr (c, d')))"

text \<open>\<open>_next_order_index\<close>: \<open>COALESCE(MAX(order_index), -1) + 1\<close> over the conversation's rows.\<close>

definition next_order_index :: "db \<Rightarrow> int \<Rightarrow> int" where
  "next_order_index d conversation_id' =
     (case map order_index (filter (\<lambda>m. conversation_id m = conversation_id') (messages d)) of
        [] \<Rightarrow> - 1
      | x # xs \<Rightarrow> fold max xs x) + 1"

definition get_message :: "db \<Rightarrow> int \<Rightarrow> py_error + message" where
  "get_message d message_id =
     (case find (\<lambda>m. msg_id m = message_id) (messages d) of
        None \<Rightarrow> Inl (ValueError (MessageNotFound message_id))
      | Some row \<Rightarrow> Inr row)"

text \<open>
  \<open>create_message\<close>.  The INSERT fails with \<open>sqlite3.IntegrityError\<close> when the
  conversation or the parent does not exist (foreign keys) or when the pair
  \<open>(conversation_id, order_index)\<close> is taken (unique index); the code itself checks
  nothing before the INSERT.  AUTOINCREMENT gives the new row an id larger than every
  id that the table has ever held.
\<close>

definition create_message ::
  "db \<Rightarrow> int \<Rightarrow> pystr \<Rightarrow> int option \<Rightarrow> pystr option \<Rightarrow> int option \<Rightarrow> pystr option
     \<Rightarrow> py_error + message \<times> db" where
  "create_message d conversation_id' content' order_index' summary' parent_id' assistant_reply' =
     (let oi = (case order_index' of None \<Rightarrow> next_order_index d conversation_id' | Some i \<Rightarrow> i) in
      if conversation_id' \<notin> set (conv_ids d) then Inl IntegrityError
      else if (case parent_id' of None \<Rightarrow> False | Some p \<Rightarrow> p \<notin> set (msg_ids d)) then Inl IntegrityError
      else if (conversation_id', oi) \<in> set (map order_key (messages d)) then Inl IntegrityError
      else
        (let message_id = fold max (msg_ids d) (msg_seq d) + 1;
             row = \<lparr>msg_id = message_id, conversation_id = conversation_id', role = User,
                    content = content', order_index = oi, summary = summary',
                    parent_id = parent_id', assistant_reply = assistant_reply',
                    created_at = now d\<rparr>;
             d' = d\<lparr>messages := messages d @ [row], msg_seq := message_id\<rparr>
         in case get_message d' message_id of
              Inl e \<Rightarrow> Inl e
            | Inr m \<Rightarrow> Inr (m, d')))"

text \<open>\<open>get_messages_for_conversation\<close>: the conversation's rows, \<open>ORDER BY order_index\<close>.\<close>

definition get_messages_for_conversation :: "db \<Rightarrow> int \<Rightarrow> message list" where
  "get_messages_for_conversation d conversation_id' =
     sort_key order_index (filter (\<lambda>m. conversation_id m = conversation_id') (messages d))"

text \<open>
  \<open>get_message_path_to_root\<close>.  The \<open>while\<close> loop has no visited set and no depth cap:
  on a cyclic parent chain it does not return, which is the value \<open>None\<close> here.
  A \<open>ValueError\<close> of \<open>get_message\<close> ends the loop (the \<open>except ValueError: break\<close>).
\<close>

partial_function (option) walk_to_root :: "db \<Rightarrow> int option \<Rightarrow> message list \<Rightarrow> message list option" where
  "walk_to_root d current_id path =
     (case current_id of
        None \<Rightarrow> Some path
      | Some i \<Rightarrow>
          (case get_message d i of
             Inl e \<Rightarrow> Some path
           | Inr m \<Rightarrow> walk_to_root d (parent_id m) (path @ [m])))"

definition get_message_path_to_root :: "db \<Rightarrow> int \<Rightarrow> message list option" where
  "get_message_path_to_root d message_id = map_option rev (walk_to_root d (Some message_id) [])"

text \<open>
  The parent relation that the walk follows: \<open>(p, i)\<close> when the stored message \<open>i\<close>
  names \<open>p\<close> as its parent.  The data model requires it to be acyclic.
\<close>

definition parent_rel :: "db \<Rightarrow> (int \<times> int) set" where
  "parent_rel d = {(p, i). \<exists>m. get_message d i = Inr m \<and> parent_id m = Some p}"

text \<open>
  \<open>ascent d cur ys\<close>: \<open>ys\<close> is the sequence of messages met from \<open>cur\<close> upwards, each
  the stored parent of the one before, ending at a root or at a reference that
  resolves to no stored message.
\<close>

fun ascent :: "db \<Rightarrow> int option \<Rightarrow> message list \<Rightarrow> bool" where
  "ascent d cur [] = (case cur of None \<Rightarrow> True | Some i \<Rightarrow> isl (get_message d i))"
| "ascent d cur (m # ys) =
     (case cur of None \<Rightarrow> False | Some i \<Rightarrow> get_message d i = Inr m \<and> ascent d (parent_id m) ys)"

text \<open>
  \<open>update_message\<close>: the keyword arguments are the fields of \<open>message_update\<close>
  (\<open>None\<close>: not supplied).  The UPDATE fails with \<open>sqlite3.IntegrityError\<close> when the
  new \<open>order_index\<close> is taken in the row's conversation or the new parent does not
  exist; when no row has the id, the UPDATE changes nothing and the final
  \<open>get_message\<close> raises.
\<close>

record message_update =
  u_content :: "pystr option"
  u_order_index :: "int option"
  u_summary :: "pystr option"
  u_parent_id :: "int option"
  u_assistant_reply :: "pystr option"

definition no_update :: message_update where
  "no_update = \<lparr>u_content = None, u_order_index = None, u_summary = None,
                 u_parent_id = None, u_assistant_reply = None\<rparr>"

definition apply_update :: "message_update \<Rightarrow> message \<Rightarrow> message" where
  "apply_update u m =
     m\<lparr>content := (case u_content u of None \<Rightarrow> content m | Some v \<Rightarrow> v),
       order_index := (case u_order_index u of None \<Rightarrow> order_index m | Some v \<Rightarrow> v),
       summary := (case u_summary u of None \<Rightarrow> summary m | Some v \<Rightarrow> Some v),
       parent_id := (case u_parent_id u of None \<Rightarrow> parent_id m | Some v \<Rightarrow> Some v),
       assistant_reply := (case u_assistant_reply u of None \<Rightarrow> assistant_reply m | Some v \<Rightarrow> Some v)\<rparr>"

definition update_message :: "db \<Rightarrow> int \<Rightarrow> message_update \<Rightarrow> py_error + message \<times> db" where
  "update_message d message_id u =
     (if u_content u = None \<and> u_order_index u = None \<and> u_summary u = None \<and>
         u_parent_id u = None \<and> u_assistant_reply u = None
      then Inl (ValueError NoFieldProvided)
      else
        (let targets = filter (\<lambda>m. msg_id m = message_id) (messages d) in
         if (case u_order_index u of
               None \<Rightarrow> False
             | Some oi \<Rightarrow>
                 list_ex (\<lambda>t. list_ex (\<lambda>r. msg_id r \<noteq> message_id \<and>
                                           conversation_id r = conversation_id t \<and>
                                           order_index r = oi) (messages d)) targets)
         then Inl IntegrityError
         else if (case u_parent_id u of
                    None \<Rightarrow> False
                  | Some p \<Rightarrow> targets \<noteq> [] \<and> p \<notin> set (msg_ids d))
         then Inl IntegrityError
         else
           (let d' = d\<lparr>messages :=
                       map (\<lambda>m. if msg_id m = message_id then apply_update u m else m)
                         (messages d)\<rparr>
            in case get_message d' message_id of
                 Inl e \<Rightarrow> Inl e
               | Inr m \<Rightarrow> Inr (m, d'))))"



section \<open>The HTTP handlers of the store (app/main.py)\<close>

text \<open>
  A handler answers with a value or with an error: an \<open>HTTPException\<close> that the handler
  raises itself, or an exception that it does not catch (the framework answers 500).
\<close>

datatype http_error = HTTPException nat | Unhandled py_error

record message_out =
  o_id :: int
  o_conversation_id :: int
  o_content :: pystr
  o_order_index :: int
  o_summary :: "pystr option"
  o_parent_id :: "int option"
  o_assistant_reply :: "pystr option"
  o_created_at :: pystr

definition from_model :: "message \<Rightarrow> message_out" where
  "from_model m =
     \<lparr>o_id = msg_id m, o_conversation_id = conversation_id m, o_content = content m,
      o_order_index = order_index m, o_summary = summary m, o_parent_id = parent_id m,
      o_assistant_reply = assistant_reply m, o_created_at = created_at m\<rparr>"


text \<open>\<open>api_create_message\<close>: only a \<open>ValueError\<close> becomes the client error 400.\<close>

definition api_create_message :: "db \<Rightarrow> int \<Rightarrow> pystr \<Rightarrow> http_error + message_out \<times> db" where
  "api_create_message d conversation_id' content' =
     (case create_message d conversation_id' content' None None None None of
        Inl (ValueError v) \<Rightarrow> Inl (HTTPException 400)
      | Inl e \<Rightarrow> Inl (Unhandled e)
      | Inr (m, d') \<Rightarrow> Inr (from_model m, d'))"

section \<open>The upstream chat client (llm/client.py)\<close>

text \<open>
  The values that \<open>json.loads\<close> returns.  The keys of an object are distinct, as those
  of a Python \<open>dict\<close> are.
\<close>

datatype json =
    JNull
  | JBool bool
  | JInt int
  | JFloat real
  | JStr pystr
  | JArr "json list"
  | JObj "(pystr \<times> json) list"

text \<open>Python's truth value of such a value (\<open>if x\<close>, \<open>x or y\<close>).\<close>

fun truthy :: "json \<Rightarrow> bool" where
  "truthy JNull = False"
| "truthy (JBool b) = b"
| "truthy (JInt i) = (i \<noteq> 0)"
| "truthy (JFloat r) = (r \<noteq> 0)"
| "truthy (JStr s) = (s \<noteq> [])"
| "truthy (JArr xs) = (xs \<noteq> [])"
| "truthy (JObj kvs) = (kvs \<noteq> [])"

text \<open>\<open>x.get(key)\<close>: only a \<open>dict\<close> has the method; a missing key gives \<open>None\<close>.\<close>

fun dict_get :: "json \<Rightarrow> pystr \<Rightarrow> py_error + json" where
  "dict_get (JObj kvs) key = Inr (case map_of kvs key of None \<Rightarrow> JNull | Some v \<Rightarrow> v)"
| "dict_get _ key = Inl AttributeError"

text \<open>\<open>x[0]\<close> on a value that is truthy.\<close>

fun index0 :: "json \<Rightarrow> py_error + json" where
  "index0 (JArr (v # vs)) = Inr v"
| "index0 (JStr (c # cs)) = Inr (JStr [c])"
| "index0 (JObj kvs) = Inl KeyError"
| "index0 _ = Inl TypeError"

definition or_else :: "json \<Rightarrow> json \<Rightarrow> json" where
  "or_else x y = (if truthy x then x else y)"

definition s_data :: pystr where "s_data = [100, 97, 116, 97, 58]"  \<comment> \<open>"data:"\<close>
definition s_DONE :: pystr where "s_DONE = [91, 68, 79, 78, 69, 93]"  \<comment> \<open>"[DONE]"\<close>
definition s_choices :: pystr where "s_choices = [99, 104, 111, 105, 99, 101, 115]"  \<comment> \<open>"choices"\<close>
definition s_delta :: pystr where "s_delta = [100, 101, 108, 116, 97]"  \<comment> \<open>"delta"\<close>
definition s_content :: pystr where "s_content = [99, 111, 110, 116, 101, 110, 116]"  \<comment> \<open>"content"\<close>

text \<open>
  One pass of the loop body of \<open>_iter_sse\<close> on a line: \<open>continue\<close>, \<open>return\<close>, a
  \<open>yield\<close>, or an exception.  \<open>loads\<close> stands for \<open>json.loads\<close> (\<open>None\<close>: it raises
  \<open>JSONDecodeError\<close>).
\<close>

datatype sse_step = Continue | Return | Yield json | Raise py_error

definition sse_line :: "(pystr \<Rightarrow> json option) \<Rightarrow> pystr \<Rightarrow> sse_step" where
  "sse_line loads line =
     (if line = [] \<or> \<not> startswith line s_data then Continue
      else
        (let data = strip (drop 5 line) in
         if data = s_DONE then Return
         else
           (case loads data of
              None \<Rightarrow> Continue
            | Some parsed \<Rightarrow>
                (case dict_get parsed s_choices of
                   Inl e \<Rightarrow> Raise e
                 | Inr c \<Rightarrow>
                     (let choices = or_else c (JArr []) in
                      if \<not> truthy choices then Continue
                      else
                        (case index0 choices of
                           Inl e \<Rightarrow> Raise e
                         | Inr first \<Rightarrow>
                             (case dict_get first s_delta of
                                Inl e \<Rightarrow> Raise e
                              | Inr dl \<Rightarrow>
                                  (case dict_get (or_else dl (JObj [])) s_content of
                                     Inl e \<Rightarrow> Raise e
                                   | Inr content_piece \<Rightarrow>
                                       if truthy content_piece then Yield content_piece
                                       else Continue))))))))"

text \<open>
  A generator that has run to its end: the values it yielded, in order, and how it
  ended.  Nothing of a generator runs at the call that creates it; an exception is
  raised when the consumer advances it past the last value of \<open>yielded\<close>.
\<close>

datatype sse_end = Exhausted | Returned | Raised py_error

fun iter_sse :: "(pystr \<Rightarrow> json option) \<Rightarrow> pystr list \<Rightarrow> json list \<times> sse_end" where
  "iter_sse loads [] = ([], Exhausted)"
| "iter_sse loads (line # lines) =
     (case sse_line loads line of
        Continue \<Rightarrow> iter_sse loads lines
      | Return \<Rightarrow> ([], Returned)
      | Raise e \<Rightarrow> ([], Raised e)
      | Yield v \<Rightarrow> (case iter_sse loads lines of (vs, how) \<Rightarrow> (v # vs, how)))"

text \<open>
  What the endpoint does with the streaming request: the connection fails (an
  \<open>httpx.HTTPError\<close> with the given text), or a response arrives with a status that
  \<open>raise_for_status\<close> accepts or not, the lines of its body, and the transport error
  (if any) that ends the body early.
\<close>

datatype transport =
    ConnectFailed pystr
  | Responded bool "pystr list" "pystr option"

definition s_request_failed :: pystr where
  "s_request_failed = [76, 76, 77, 32, 112, 114, 111, 118, 105, 100, 101, 114, 32, 114, 101,
     113, 117, 101, 115, 116, 32, 102, 97, 105, 108, 101, 100, 58, 32]"
  \<comment> \<open>"LLM provider request failed: "\<close>

text \<open>
  \<open>_post_stream\<close>.  The handler of \<open>HTTPStatusError\<close> formats \<open>exc.response.text\<close>; the
  response was opened with \<open>client.stream\<close> and its body was never read, and httpx
  raises \<open>ResponseNotRead\<close> on \<open>.text\<close> of such a response, so that exception leaves
  the handler.  \<open>_post\<close> has the same handler on a response that was read.
\<close>

definition post_stream :: "(pystr \<Rightarrow> json option) \<Rightarrow> transport \<Rightarrow> json list \<times> py_error option" where
  "post_stream loads tr =
     (case tr of
        ConnectFailed msg \<Rightarrow> ([], Some (LLMClientError (s_request_failed @ msg)))
      | Responded ok lines read_error \<Rightarrow>
          if \<not> ok then ([], Some ResponseNotRead)
          else
            (case iter_sse loads lines of
               (vs, Returned) \<Rightarrow> (vs, None)
             | (vs, Raised e) \<Rightarrow> (vs, Some e)
             | (vs, Exhausted) \<Rightarrow>
                 (vs, case read_error of
                        None \<Rightarrow> None
                      | Some msg \<Rightarrow> Some (LLMClientError (s_request_failed @ msg)))))"

text \<open>The entries of a prompt: the dicts with the keys \<open>role\<close> and \<open>content\<close>.\<close>

record llm_message =
  msg_role :: "pystr option"
  msg_content :: "pystr option"

definition falsy_str :: "pystr option \<Rightarrow> bool" where
  "falsy_str x \<longleftrightarrow> x = None \<or> x = Some []"

definition normalize_messages :: "llm_message list \<Rightarrow> py_error + llm_message list" where
  "normalize_messages ms =
     (if list_ex (\<lambda>m. falsy_str (msg_role m) \<or> falsy_str (msg_content m)) ms
      then Inl (ValueError MissingRoleOrContent)
      else Inr ms)"

text \<open>
  \<open>stream\<close>: the payload is built and the request is sent when the generator is first
  advanced.  \<open>net\<close> is the endpoint: what it does with a prompt and a temperature.
\<close>

definition stream :: "(pystr \<Rightarrow> json option) \<Rightarrow> (llm_message list \<Rightarrow> real \<Rightarrow> transport)
     \<Rightarrow> llm_message list \<Rightarrow> real \<Rightarrow> json list \<times> py_error option" where
  "stream loads net ms temperature' =
     (case normalize_messages ms of
        Inl e \<Rightarrow> ([], Some e)
      | Inr normalized \<Rightarrow> post_stream loads (net normalized temperature'))"

section \<open>The reply orchestrator (app/main.py)\<close>

subsection \<open>Detection of questions about the model's identity\<close>

text \<open>
  The patterns of \<open>judgment_patterns\<close> use literals, \<open>.*\<close>, \<open>\?*\<close> and \<open>$\<close> only.
  \<open>re_match\<close> matches a pattern at the start of a string, \<open>re_search\<close> anywhere, as
  \<open>re.search\<close> without flags does: \<open>.\<close> is any code point but the line feed, \<open>$\<close> is
  the end of the string or the position before a final line feed.
\<close>

datatype atom = Lit nat | DotStar | LitStar nat | Dollar

fun re_match :: "atom list \<Rightarrow> pystr \<Rightarrow> bool" where
  "re_match [] s = True"
| "re_match (Lit c # ps) [] = False"
| "re_match (Lit c # ps) (x # xs) = (x = c \<and> re_match ps xs)"
| "re_match (DotStar # ps) [] = re_match ps []"
| "re_match (DotStar # ps) (x # xs) =
     (re_match ps (x # xs) \<or> (x \<noteq> 10 \<and> re_match (DotStar # ps) xs))"
| "re_match (LitStar c # ps) [] = re_match ps []"
| "re_match (LitStar c # ps) (x # xs) =
     (re_match ps (x # xs) \<or> (x = c \<and> re_match (LitStar c # ps) xs))"
| "re_match (Dollar # ps) s = ((s = [] \<or> s = [10]) \<and> re_match ps s)"

fun re_search :: "atom list \<Rightarrow> pystr \<Rightarrow> bool" where
  "re_search ps [] = re_match ps []"
| "re_search ps (x # xs) = (re_match ps (x # xs) \<or> re_search ps xs)"

text \<open>
  The seventeen keywords, as code points.  The ASCII ones are "what are you",
  "who are you", "what model" and "which model"; the fourth ends in "ai".
\<close>

definition model_keywords :: "pystr list" where
  "model_keywords =
     [[20320, 26159, 20160, 20040],
      [20320, 26159, 35841],
      [20320, 26159, 20160, 20040, 27169, 22411],
      [20320, 26159, 20160, 20040, 97, 105],
      [20320, 26159, 20160, 20040, 21161, 25163],
      [20160, 20040, 27169, 22411],
      [21738, 20010, 27169, 22411],
      [29992, 30340, 20160, 20040],
      [22522, 20110, 20160, 20040],
      [20160, 20040, 25216, 26415],
      [119, 104, 97, 116, 32, 97, 114, 101, 32, 121, 111, 117],
      [119, 104, 111, 32, 97, 114, 101, 32, 121, 111, 117],
      [119, 104, 97, 116, 32, 109, 111, 100, 101, 108],
      [119, 104, 105, 99, 104, 32, 109, 111, 100, 101, 108],
      [20320, 21483, 20160, 20040],
      [20320, 30340, 21517, 23383],
      [20320, 30340, 36523, 20221]]"

text \<open>
  The eight patterns.  U+4F60 U+662F is 20320 26159, U+5417 is 21527, the fullwidth
  question mark U+FF1F is 65311, the ASCII one is 63.
\<close>

definition judgment_patterns :: "atom list list" where
  "judgment_patterns =
     [[Lit 20320, Lit 26159, DotStar, Lit 21527, LitStar 63, Dollar],
      [Lit 20320, Lit 26159, DotStar, Lit 21527, Lit 65311],
      [Lit 20320, Lit 26159, DotStar, Lit 65311],
      [Lit 20320, Lit 26159, DotStar, Lit 63],
      [Lit 26159, Lit 19981, Lit 26159, DotStar],
      [Lit 26159, Lit 21542, DotStar],
      [Lit 33021, Lit 21542, DotStar],
      [Lit 20250, Lit 19981, Lit 20250, DotStar]]"

text \<open>
  \<open>is_model_related_question\<close>.  \<open>lower\<close> stands for \<open>str.lower\<close>, whose Unicode case
  tables are not part of the repository.
\<close>

definition is_model_related_question :: "(pystr \<Rightarrow> pystr) \<Rightarrow> pystr \<Rightarrow> bool" where
  "is_model_related_question lower content' =
     (let content_lower = strip (lower content') in
      list_ex (\<lambda>keyword. contains content_lower keyword) model_keywords \<or>
      list_ex (\<lambda>pattern. re_search pattern content_lower) judgment_patterns)"

text \<open>\<open>str.lower\<close> on the letters A to Z; it agrees with Python on ASCII strings.\<close>

definition ascii_lower :: "pystr \<Rightarrow> pystr" where
  "ascii_lower s = map (\<lambda>c. if 65 \<le> c \<and> c \<le> 90 then c + 32 else c) s"

subsection \<open>The generator \<open>_stream_llm_reply\<close>\<close>

definition ASSISTANT_SYSTEM_PROMPT :: pystr where
  "ASSISTANT_SYSTEM_PROMPT =
     [20320, 26159, 32, 70, 111, 108, 108, 111, 119, 67, 104, 97, 116, 32, 21161, 25163, 65292,
      38656, 35201, 26681, 25454, 24403, 21069, 20250, 35805, 21382, 21490, 22238, 31572,
      29992, 25143, 26368, 26032, 30340, 38382, 39064, 12290, 20445, 25345, 19987, 19994,
      19988, 31616, 27905, 65292, 22914, 20449, 24687, 19981, 36275, 35831, 20027, 21160,
      35828, 26126, 12290]"

definition MODEL_IDENTITY_RESPONSE :: pystr where
  "MODEL_IDENTITY_RESPONSE =
     [25105, 26159, 70, 111, 108, 108, 111, 119, 67, 104, 97, 116, 32, 21161, 25163, 65292,
      20026, 20320, 25552, 20379, 20998, 25903, 23545, 35805, 31649, 29702, 12290]"

definition SUMMARY_SYSTEM_PROMPT :: pystr where
  "SUMMARY_SYSTEM_PROMPT =
     [35831, 29992, 53, 45, 49, 48, 20010, 23383, 27010, 25324, 29992, 25143, 21018, 21018,
      36755, 20837, 30340, 20869, 23481, 65292, 20165, 36820, 22238, 27010, 25324, 25991,
      26412, 12290]"

definition s_new_conversation :: pystr where
  "s_new_conversation = [26032, 23545, 35805]"  \<comment> \<open>the default title of a conversation\<close>

definition s_request_error :: pystr where
  "s_request_error = [76, 76, 77, 32, 35831, 27714, 22833, 36133, 58, 32]"
  \<comment> \<open>the prefix of the text of an error frame, "LLM ...: "\<close>

definition s_system :: pystr where "s_system = [115, 121, 115, 116, 101, 109]"
definition s_user :: pystr where "s_user = [117, 115, 101, 114]"
definition s_assistant :: pystr where "s_assistant = [97, 115, 115, 105, 115, 116, 97, 110, 116]"

definition entry :: "pystr \<Rightarrow> pystr \<Rightarrow> llm_message" where
  "entry r c = \<lparr>msg_role = Some r, msg_content = Some c\<rparr>"

text \<open>The frames of the response, one JSON object a line.\<close>

datatype frame = MessageId int | Delta pystr | Done | ErrorFrame pystr

text \<open>
  The object \<open>llm_client\<close> as the generator uses it: \<open>stream\<close> gives the fragments and
  the exception (if any) that ends them, \<open>complete\<close> gives the content of the first
  choice or raises.
\<close>

record llm_client =
  stream_fn :: "llm_message list \<Rightarrow> real \<Rightarrow> pystr list \<times> py_error option"
  complete_fn :: "llm_message list \<Rightarrow> real \<Rightarrow> py_error + pystr"

datatype llm_call = StreamCall "llm_message list" real | CompleteCall "llm_message list" real

datatype db_write =
    SetReply int pystr
  | SetSummary int pystr
  | SetTitle int pystr

text \<open>
  What the generator does, in order: the frames it yields, the calls of the client and
  the updates of the store that succeed.  A run ends with the database it leaves and
  the exception (if any) that leaves the generator.
\<close>

datatype event = Emitted frame | Invoked llm_call | Stored db_write

record reply_run =
  trace :: "event list"
  final_db :: db
  raised :: "py_error option"

definition frames :: "reply_run \<Rightarrow> frame list" where
  "frames r = concat (map (\<lambda>ev. case ev of Emitted f \<Rightarrow> [f] | _ \<Rightarrow> []) (trace r))"

definition calls :: "reply_run \<Rightarrow> llm_call list" where
  "calls r = concat (map (\<lambda>ev. case ev of Invoked c \<Rightarrow> [c] | _ \<Rightarrow> []) (trace r))"

definition writes :: "reply_run \<Rightarrow> db_write list" where
  "writes r = concat (map (\<lambda>ev. case ev of Stored w \<Rightarrow> [w] | _ \<Rightarrow> []) (trace r))"

text \<open>The loop over \<open>history\<close> that builds \<open>llm_messages\<close>.\<close>

definition history_entries :: "message \<Rightarrow> llm_message list" where
  "history_entries msg =
     (case role msg of
        User \<Rightarrow>
          entry s_user (content msg) #
          (case assistant_reply msg of
             None \<Rightarrow> []
           | Some reply \<Rightarrow> if reply \<noteq> [] then [entry s_assistant reply] else [])
      | Assistant \<Rightarrow> [entry s_assistant (content msg)]
      | System \<Rightarrow> [])"

definition llm_prompt :: "message list \<Rightarrow> llm_message list" where
  "llm_prompt history = entry s_system ASSISTANT_SYSTEM_PROMPT # concat (map history_entries history)"

definition summary_prompt :: "pystr \<Rightarrow> llm_message list" where
  "summary_prompt content' = [entry s_system SUMMARY_SYSTEM_PROMPT, entry s_user content']"

text \<open>The last step: the title of the conversation (the lines after the summary).\<close>

definition derive_title ::
  "db \<Rightarrow> int \<Rightarrow> pystr \<Rightarrow> conversation \<Rightarrow> message \<Rightarrow> pystr option \<Rightarrow> event list \<Rightarrow> reply_run" where
  "derive_title d conversation_id' content' conversation' user_message summary_text tr =
     (let should_update_title = (title conversation' = s_new_conversation \<or> title conversation' = []) in
      if should_update_title \<and> order_index user_message = 0 then
        (let title_candidate =
               (case summary_text of
                  None \<Rightarrow> strip content'
                | Some t \<Rightarrow> if t \<noteq> [] then t else strip content')
         in if title_candidate \<noteq> [] then
              (case update_conversation d conversation_id' (Some (take 255 title_candidate)) of
                 Inl e \<Rightarrow> \<lparr>trace = tr, final_db = d, raised = Some e\<rparr>
               | Inr (c, d') \<Rightarrow>
                   \<lparr>trace = tr @ [Stored (SetTitle conversation_id' (take 255 title_candidate))],
                    final_db = d', raised = None\<rparr>)
            else \<lparr>trace = tr, final_db = d, raised = None\<rparr>)
      else \<lparr>trace = tr, final_db = d, raised = None\<rparr>)"

text \<open>The summary: a \<open>complete\<close> call whose \<open>LLMClientError\<close> is caught.\<close>

definition derive_summary ::
  "llm_client \<Rightarrow> db \<Rightarrow> int \<Rightarrow> pystr \<Rightarrow> conversation \<Rightarrow> message \<Rightarrow> event list \<Rightarrow> reply_run" where
  "derive_summary client d conversation_id' content' conversation' user_message tr =
     (let tr1 = tr @ [Invoked (CompleteCall (summary_prompt content') (2 / 10))] in
      case complete_fn client (summary_prompt content') (2 / 10) of
        Inl (LLMClientError x) \<Rightarrow>
          derive_title d conversation_id' content' conversation' user_message None tr1
      | Inl e \<Rightarrow> \<lparr>trace = tr1, final_db = d, raised = Some e\<rparr>
      | Inr c \<Rightarrow>
          (let summary_text = strip c in
           if summary_text \<noteq> [] then
             (let trimmed_summary = take 255 summary_text in
              case update_message d (msg_id user_message) (no_update\<lparr>u_summary := Some trimmed_summary\<rparr>) of
                Inl e \<Rightarrow> \<lparr>trace = tr1, final_db = d, raised = Some e\<rparr>
              | Inr (user_message', d') \<Rightarrow>
                  derive_title d' conversation_id' content' conversation' user_message'
                    (Some trimmed_summary)
                    (tr1 @ [Stored (SetSummary (msg_id user_message) trimmed_summary)]))
           else
             derive_title d conversation_id' content' conversation' user_message
               (Some summary_text) tr1))"

text \<open>The upstream branch, from the loop over the stream on.\<close>

definition relay ::
  "llm_client \<Rightarrow> db \<Rightarrow> int \<Rightarrow> pystr \<Rightarrow> conversation \<Rightarrow> real \<Rightarrow> message \<Rightarrow> message list
     \<Rightarrow> event list \<Rightarrow> reply_run" where
  "relay client d conversation_id' content' conversation' temperature' user_message history tr =
     (let llm_messages = llm_prompt history in
      case stream_fn client llm_messages temperature' of
        (deltas, ending) \<Rightarrow>
          (let tr1 = tr @ [Invoked (StreamCall llm_messages temperature')]
                        @ map (\<lambda>delta. Emitted (Delta delta)) deltas
           in case ending of
                Some (LLMClientError x) \<Rightarrow>
                  \<lparr>trace = tr1 @ [Emitted (ErrorFrame (s_request_error @ x))],
                   final_db = d, raised = None\<rparr>
              | Some e \<Rightarrow> \<lparr>trace = tr1, final_db = d, raised = Some e\<rparr>
              | None \<Rightarrow>
                  (let tr2 = tr1 @ [Emitted Done];
                       assistant_content = strip (concat deltas)
                   in case update_message d (msg_id user_message)
                             (no_update\<lparr>u_assistant_reply := Some assistant_content\<rparr>) of
                        Inl e \<Rightarrow> \<lparr>trace = tr2, final_db = d, raised = Some e\<rparr>
                      | Inr (user_message', d') \<Rightarrow>
                          derive_summary client d' conversation_id' content' conversation'
                            user_message'
                            (tr2 @ [Stored (SetReply (msg_id user_message) assistant_content)]))))"

text \<open>
  \<open>_stream_llm_reply\<close>, run to its end by a consumer that reads every frame.  The
  result is \<open>None\<close> when the walk to the root does not return.
\<close>

definition stream_llm_reply ::
  "(pystr \<Rightarrow> pystr) \<Rightarrow> llm_client \<Rightarrow> db \<Rightarrow> int \<Rightarrow> pystr \<Rightarrow> conversation \<Rightarrow> real \<Rightarrow> message
     \<Rightarrow> reply_run option" where
  "stream_llm_reply lower client d conversation_id' content' conversation' temperature' user_message =
     (let tr0 = [Emitted (MessageId (msg_id user_message))] in
      if is_model_related_question lower content' then
        (let response_text = MODEL_IDENTITY_RESPONSE;
             tr1 = tr0 @ map (\<lambda>char. Emitted (Delta [char])) response_text @ [Emitted Done]
         in case update_message d (msg_id user_message)
                   (no_update\<lparr>u_assistant_reply := Some response_text\<rparr>) of
              Inl e \<Rightarrow> Some \<lparr>trace = tr1, final_db = d, raised = Some e\<rparr>
            | Inr (user_message', d') \<Rightarrow>
                Some \<lparr>trace = tr1 @ [Stored (SetReply (msg_id user_message) response_text)],
                      final_db = d', raised = None\<rparr>)
      else
        (case get_message_path_to_root d (msg_id user_message) of
           None \<Rightarrow> None
         | Some history \<Rightarrow>
             Some (relay client d conversation_id' content' conversation' temperature'
                     user_message history tr0)))"

section \<open>Notions used to state the properties of the store\<close>


text \<open>
  An update supplies at least one field; an update agrees with a row when every field
  it supplies has the value that the row already holds.
\<close>

definition supplied :: "message_update \<Rightarrow> bool" where
  "supplied u \<longleftrightarrow>
     \<not> (u_content u = None \<and> u_order_index u = None \<and> u_summary u = None \<and>
        u_parent_id u = None \<and> u_assistant_reply u = None)"

definition agrees :: "message_update \<Rightarrow> message \<Rightarrow> bool" where
  "agrees u m \<longleftrightarrow>
     (u_content u = None \<or> u_content u = Some (content m)) \<and>
     (u_order_index u = None \<or> u_order_index u = Some (order_index m)) \<and>
     (u_summary u = None \<or> u_summary u = summary m) \<and>
     (u_parent_id u = None \<or> u_parent_id u = parent_id m) \<and>
     (u_assistant_reply u = None \<or> u_assistant_reply u = assistant_reply m)"

text \<open>The two constraint checks of the UPDATE and the table it leaves.\<close>

definition order_clash :: "db \<Rightarrow> int \<Rightarrow> message_update \<Rightarrow> bool" where
  "order_clash d mid u \<longleftrightarrow>
     (case u_order_index u of None \<Rightarrow> False
      | Some oi \<Rightarrow> list_ex (\<lambda>t. list_ex (\<lambda>r. msg_id r \<noteq> mid \<and>
            conversation_id r = conversation_id t \<and> order_index r = oi) (messages d))
          (filter (\<lambda>m. msg_id m = mid) (messages d)))"

definition parent_missing :: "db \<Rightarrow> int \<Rightarrow> message_update \<Rightarrow> bool" where
  "parent_missing d mid u \<longleftrightarrow>
     (case u_parent_id u of None \<Rightarrow> False
      | Some p \<Rightarrow> filter (\<lambda>m. msg_id m = mid) (messages d) \<noteq> [] \<and> p \<notin> set (msg_ids d))"

definition updated :: "db \<Rightarrow> int \<Rightarrow> message_update \<Rightarrow> db" where
  "updated d mid u =
     d\<lparr>messages := map (\<lambda>m. if msg_id m = mid then apply_update u m else m) (messages d)\<rparr>"

section \<open>Notions used to state the properties of the orchestrator\<close>

text \<open>An event that is not a frame.\<close>

definition quiet :: "event \<Rightarrow> bool" where
  "quiet ev = (case ev of Emitted f \<Rightarrow> False | _ \<Rightarrow> True)"




text \<open>The updates that the generator issues, and the stores and writes they give.\<close>

definition retitled :: "db \<Rightarrow> int \<Rightarrow> pystr \<Rightarrow> db" where
  "retitled d cid t =
     d\<lparr>conversations := map (\<lambda>c. if conv_id c = cid then c\<lparr>title := t\<rparr> else c) (conversations d)\<rparr>"

definition only_summary :: "pystr \<Rightarrow> message_update" where
  "only_summary s = no_update\<lparr>u_summary := Some s\<rparr>"

definition only_reply :: "pystr \<Rightarrow> message_update" where
  "only_reply s = no_update\<lparr>u_assistant_reply := Some s\<rparr>"





section \<open>Example data\<close>

text \<open>
  A store with one conversation and a chain of three messages: 1 is the root, 2
  answers 1, 3 answers 2.  The texts are "hi" and "yo".
\<close>

definition ex_m1 :: message where
  "ex_m1 = \<lparr>msg_id = 1, conversation_id = 1, role = User, content = [104, 105], order_index = 0,
            summary = None, parent_id = None, assistant_reply = Some [121, 111], created_at = []\<rparr>"

definition ex_m2 :: message where
  "ex_m2 = \<lparr>msg_id = 2, conversation_id = 1, role = User, content = [104, 105], order_index = 1,
            summary = None, parent_id = Some 1, assistant_reply = None, created_at = []\<rparr>"

definition ex_m3 :: message where
  "ex_m3 = \<lparr>msg_id = 3, conversation_id = 1, role = User, content = [104, 105], order_index = 2,
            summary = None, parent_id = Some 2, assistant_reply = None, created_at = []\<rparr>"

definition ex_conv :: conversation where
  "ex_conv = \<lparr>conv_id = 1, title = s_new_conversation, conv_created_at = []\<rparr>"

definition ex_db :: db where
  "ex_db = \<lparr>conversations = [ex_conv], messages = [ex_m1, ex_m2, ex_m3], configs = None,
            conv_seq = 1, msg_seq = 3, now = []\<rparr>"


text \<open>
  The same store before any message, and four calls of \<open>create_message\<close>: three for
  conversation 1 and one for conversation 7, which does not exist.  Two updates of
  message 2: one that repeats its stored values, one that sets a summary.
\<close>

definition ex_empty :: db where
  "ex_empty = \<lparr>conversations = [ex_conv], messages = [], configs = None,
               conv_seq = 1, msg_seq = 0, now = []\<rparr>"

definition ex_calls :: "(int \<times> pystr \<times> int option) list" where
  "ex_calls = [(1, [104, 105], None), (1, [104, 105], Some 1), (7, [104, 105], None),
               (1, [104, 105], Some 1)]"

definition ex_same :: message_update where
  "ex_same = no_update\<lparr>u_content := Some [104, 105], u_order_index := Some 1, u_parent_id := Some 1\<rparr>"

definition ex_change :: message_update where
  "ex_change = no_update\<lparr>u_summary := Some [121, 111]\<rparr>"

text \<open>
  The first message of the conversation as \<open>create_message\<close> stores it, and the store
  that holds it.  Three clients: one streams "A", "B", "C" and derives a three-character
  summary; one streams "A" and then fails, as does its \<open>complete\<close>; one streams the
  same three fragments but fails to derive a summary.
\<close>

definition ex_m0 :: message where
  "ex_m0 = \<lparr>msg_id = 1, conversation_id = 1, role = User, content = [104, 105], order_index = 0,
            summary = None, parent_id = None, assistant_reply = None, created_at = []\<rparr>"

definition ex_db1 :: db where
  "ex_db1 = \<lparr>conversations = [ex_conv], messages = [ex_m0], configs = None,
             conv_seq = 1, msg_seq = 1, now = []\<rparr>"

definition ex_abc :: llm_client where
  "ex_abc = \<lparr>stream_fn = (\<lambda>ms t. ([[65], [66], [67]], None)),
             complete_fn = (\<lambda>ms t. Inr [30701, 26631, 39064])\<rparr>"

definition ex_down :: llm_client where
  "ex_down = \<lparr>stream_fn = (\<lambda>ms t. ([[65]], Some (LLMClientError [120]))),
              complete_fn = (\<lambda>ms t. Inl (LLMClientError [120]))\<rparr>"

definition ex_nosummary :: llm_client where
  "ex_nosummary = \<lparr>stream_fn = (\<lambda>ms t. ([[65], [66], [67]], None)),
                   complete_fn = (\<lambda>ms t. Inl (LLMClientError [120]))\<rparr>"

definition ex_who :: pystr where
  "ex_who = [87, 104, 111, 32, 65, 114, 101, 32, 89, 111, 117, 63]"  \<comment> \<open>"Who Are You?"\<close>

text \<open>
  A streamed body: an empty line, a comment line, a data line with the fragment "A", a
  data line that is not JSON, the sentinel, and one more data line.  \<open>ex_loads\<close> gives
  the values of \<open>json.loads\<close> on the payloads used here: the number 123, the object
  with one choice whose delta has the content "A", and a decode error on anything else.
\<close>

definition ex_payload :: pystr where
  "ex_payload = [123, 34, 99, 104, 111, 105, 99, 101, 115, 34, 58, 91, 123, 34, 100, 101, 108,
     116, 97, 34, 58, 123, 34, 99, 111, 110, 116, 101, 110, 116, 34, 58, 34, 65, 34, 125, 125,
     93, 125]"

definition ex_loads :: "pystr \<Rightarrow> json option" where
  "ex_loads s =
     (if s = [49, 50, 51] then Some (JInt 123)
      else if s = ex_payload then
        Some (JObj [(s_choices, JArr [JObj [(s_delta, JObj [(s_content, JStr [65])])]])])
      else None)"

definition ex_lines :: "pystr list" where
  "ex_lines =
     [[],
      [58, 32, 112, 105, 110, 103],
      [100, 97, 116, 97, 58, 32] @ ex_payload,
      [100, 97, 116, 97, 58, 32, 123, 111, 111, 112, 115],
      [100, 97, 116, 97, 58, 32, 91, 68, 79, 78, 69, 93],
      [100, 97, 116, 97, 58, 32] @ ex_payload]"

definition ex_prompt :: "llm_message list" where
  "ex_prompt = [entry s_user [104, 105]]"

section \<open>The walk to the root\<close>

lemmas ex_defs = ex_db_def ex_empty_def ex_conv_def ex_m1_def ex_m2_def ex_m3_def ex_calls_def
  ex_same_def ex_change_def


lemma get_message_Inr: "get_message d i = Inr m \<Longrightarrow> m \<in> set (messages d) \<and> msg_id m = i"
  by (auto simp: get_message_def find_Some_iff split: option.splits)

lemma walk_chain: "ascent d cur ys \<Longrightarrow> walk_to_root d cur acc = Some (acc @ ys)"
proof (induction ys arbitrary: cur acc)
  case Nil
  then show ?case by (subst walk_to_root.simps) (auto split: option.splits sum.splits)
next
  case (Cons m ys)
  then show ?case by (subst walk_to_root.simps) (auto split: option.splits sum.splits)
qed

lemma finite_parent_rel: "finite (parent_rel d)"
proof -
  have "parent_rel d \<subseteq> (\<lambda>m. (the (parent_id m), msg_id m)) ` set (messages d)"
    by (force simp: parent_rel_def dest: get_message_Inr)
  then show ?thesis by (rule finite_subset) simp
qed

lemma chain_exists:
  assumes "wf (parent_rel d)"
  shows "\<exists>ys. ascent d (Some i) ys"
  using assms
proof (induction i rule: wf_induct_rule)
  case (less i)
  show ?case
  proof (cases "get_message d i")
    case (Inl e)
    then have "ascent d (Some i) []" by simp
    then show ?thesis by blast
  next
    case (Inr m)
    show ?thesis
    proof (cases "parent_id m")
      case None
      with Inr have "ascent d (Some i) [m]" by simp
      then show ?thesis by blast
    next
      case (Some p)
      with Inr have "(p, i) \<in> parent_rel d" by (auto simp: parent_rel_def)
      from less.IH[OF this] obtain ys where "ascent d (Some p) ys" by blast
      with Inr Some have "ascent d (Some i) (m # ys)" by simp
      then show ?thesis by blast
    qed
  qed
qed






lemma parents_older_acyclic:
  assumes "list_all (\<lambda>m. case parent_id m of None \<Rightarrow> True | Some p \<Rightarrow> p < msg_id m) (messages d)"
  shows "acyclic (parent_rel d)"
proof (rule acyclicI_order[where f = uminus])
  fix p i assume "(p, i) \<in> parent_rel d"
  then obtain m where m: "get_message d i = Inr m" "parent_id m = Some p"
    by (auto simp: parent_rel_def)
  from get_message_Inr[OF m(1)] have "m \<in> set (messages d)" "msg_id m = i" by auto
  with assms m(2) have "p < i" by (auto simp: list_all_iff)
  then show "- i < - p" by simp
qed




lemma ex_path: "get_message_path_to_root ex_db 3 = Some [ex_m1, ex_m2, ex_m3]"
  by (simp add: get_message_path_to_root_def walk_to_root.simps get_message_def ex_db_def ex_m1_def ex_m2_def ex_m3_def)






section \<open>Creating messages\<close>

text \<open>
  C8.  \<open>create_message\<close> for conversation 999, which the example store does not hold:
  the INSERT fails on the foreign key with \<open>sqlite3.IntegrityError\<close>, which is not a
  \<open>ValueError\<close>, so \<open>api_create_message\<close> does not turn it into the client error 400;
  \<open>get_conversation\<close> on the same id raises the \<open>ValueError\<close> that the handler expects.
\<close>

theorem create_message_missing_conversation:
  "create_message ex_db 999 [104, 105] None None None None = Inl IntegrityError \<and>
   api_create_message ex_db 999 [104, 105] = Inl (Unhandled IntegrityError) \<and>
   get_conversation ex_db 999 = Inl (ValueError (ConversationNotFound 999))"
  by (simp add: create_message_def api_create_message_def get_conversation_def conv_ids_def ex_db_def ex_conv_def)

section \<open>The order index of a new message\<close>

lemma fold_max_ge: "(a::int) \<le> fold max xs a \<and> (\<forall>x\<in>set xs. x \<le> fold max xs a)"
proof (induction xs arbitrary: a)
  case Nil show ?case by simp
next
  case (Cons y ys)
  from Cons[of "max y a"] show ?case by auto
qed

lemma find_append_fresh:
  "\<forall>x\<in>set xs. \<not> P x \<Longrightarrow> P y \<Longrightarrow> find P (xs @ [y]) = Some y"
  by (induction xs) auto

lemma create_message_Inr:
  assumes "create_message d cid c oi s p r = Inr (m, d')"
  shows "m = \<lparr>msg_id = fold max (msg_ids d) (msg_seq d) + 1, conversation_id = cid, role = User,
               content = c,
               order_index = (case oi of None \<Rightarrow> next_order_index d cid | Some i \<Rightarrow> i),
               summary = s, parent_id = p, assistant_reply = r, created_at = now d\<rparr>"
    and "d' = d\<lparr>messages := messages d @ [m], msg_seq := msg_id m\<rparr>"
    and "cid \<in> set (conv_ids d)"
proof -
  let ?i = "fold max (msg_ids d) (msg_seq d) + 1"
  let ?row = "\<lparr>msg_id = ?i, conversation_id = cid, role = User, content = c,
               order_index = (case oi of None \<Rightarrow> next_order_index d cid | Some i \<Rightarrow> i),
               summary = s, parent_id = p, assistant_reply = r, created_at = now d\<rparr>"
  have fresh: "\<forall>x\<in>set (messages d). msg_id x \<noteq> ?i"
    using fold_max_ge[of "msg_seq d" "msg_ids d"] by (fastforce simp: msg_ids_def)
  have found: "find (\<lambda>m. msg_id m = ?i) (messages d @ [?row]) = Some ?row"
    by (rule find_append_fresh) (use fresh in auto)
  from assms found show "m = ?row"
    by (auto simp: create_message_def Let_def get_message_def split: if_splits)
  from assms found show "d' = d\<lparr>messages := messages d @ [m], msg_seq := msg_id m\<rparr>"
    by (auto simp: create_message_def Let_def get_message_def split: if_splits)
  from assms show "cid \<in> set (conv_ids d)"
    by (auto simp: create_message_def Let_def split: if_splits)
qed













section \<open>Updating a message\<close>

lemma apply_update_fields:
  "msg_id (apply_update u m) = msg_id m"
  "conversation_id (apply_update u m) = conversation_id m"
  "role (apply_update u m) = role m"
  "created_at (apply_update u m) = created_at m"
  "content (apply_update u m) = (case u_content u of None \<Rightarrow> content m | Some v \<Rightarrow> v)"
  "order_index (apply_update u m) = (case u_order_index u of None \<Rightarrow> order_index m | Some v \<Rightarrow> v)"
  "summary (apply_update u m) = (case u_summary u of None \<Rightarrow> summary m | Some v \<Rightarrow> Some v)"
  "parent_id (apply_update u m) = (case u_parent_id u of None \<Rightarrow> parent_id m | Some v \<Rightarrow> Some v)"
  "assistant_reply (apply_update u m) =
     (case u_assistant_reply u of None \<Rightarrow> assistant_reply m | Some v \<Rightarrow> Some v)"
  "message.more (apply_update u m) = message.more m"
  by (simp_all add: apply_update_def)

lemma keep_option: "x = None \<or> x = y \<Longrightarrow> (case x of None \<Rightarrow> y | Some v \<Rightarrow> Some v) = y"
  by (cases x) auto

lemma keep_value: "x = None \<or> x = Some y \<Longrightarrow> (case x of None \<Rightarrow> y | Some v \<Rightarrow> v) = y"
  by (cases x) auto

lemma apply_update_agrees: "agrees u m \<Longrightarrow> apply_update u m = m"
  unfolding agrees_def
  by (rule message.equality) (simp_all add: apply_update_fields keep_option keep_value)

lemma apply_update_idem: "apply_update u (apply_update u m) = apply_update u m"
proof (rule message.equality)
  show "content (apply_update u (apply_update u m)) = content (apply_update u m)"
    by (cases "u_content u") (simp_all add: apply_update_fields)
  show "order_index (apply_update u (apply_update u m)) = order_index (apply_update u m)"
    by (cases "u_order_index u") (simp_all add: apply_update_fields)
  show "summary (apply_update u (apply_update u m)) = summary (apply_update u m)"
    by (cases "u_summary u") (simp_all add: apply_update_fields)
  show "parent_id (apply_update u (apply_update u m)) = parent_id (apply_update u m)"
    by (cases "u_parent_id u") (simp_all add: apply_update_fields)
  show "assistant_reply (apply_update u (apply_update u m)) = assistant_reply (apply_update u m)"
    by (cases "u_assistant_reply u") (simp_all add: apply_update_fields)
qed (simp_all add: apply_update_fields)


lemma distinct_ids_unique:
  assumes "distinct (map msg_id rows)" "m \<in> set rows" "r \<in> set rows" "msg_id r = msg_id m"
  shows "r = m"
  using assms by (meson distinct_map inj_onD)


lemma update_message_eq:
  "update_message d mid u =
     (if \<not> supplied u then Inl (ValueError NoFieldProvided)
      else if order_clash d mid u then Inl IntegrityError
      else if parent_missing d mid u then Inl IntegrityError
      else (case get_message (updated d mid u) mid of
              Inl e \<Rightarrow> Inl e
            | Inr m \<Rightarrow> Inr (m, updated d mid u)))"
  unfolding update_message_def supplied_def order_clash_def parent_missing_def updated_def Let_def
    not_not
  by (rule refl)

lemma order_clash_iff:
  "order_clash d mid u \<longleftrightarrow>
     (\<exists>oi. u_order_index u = Some oi \<and>
        (\<exists>t\<in>set (messages d). msg_id t = mid \<and>
          (\<exists>r\<in>set (messages d). msg_id r \<noteq> mid \<and> conversation_id r = conversation_id t \<and>
             order_index r = oi)))"
  by (cases "u_order_index u") (auto simp: order_clash_def list_ex_iff)

lemma update_message_Inr:
  assumes "update_message d mid u = Inr (m', d')"
  shows "supplied u" "\<not> order_clash d mid u" "\<not> parent_missing d mid u"
    "d' = updated d mid u" "get_message d' mid = Inr m'"
proof -
  show s: "supplied u" using assms by (cases "supplied u") (simp_all add: update_message_eq)
  show c: "\<not> order_clash d mid u"
    using assms s by (cases "order_clash d mid u") (simp_all add: update_message_eq)
  show p: "\<not> parent_missing d mid u"
    using assms s c by (cases "parent_missing d mid u") (simp_all add: update_message_eq)
  from assms s c p have *: "(case get_message (updated d mid u) mid of
              Inl e \<Rightarrow> Inl e
            | Inr m \<Rightarrow> Inr (m, updated d mid u)) = Inr (m', d')"
    by (simp add: update_message_eq)
  then show "d' = updated d mid u" by (cases "get_message (updated d mid u) mid") simp_all
  from * show "get_message d' mid = Inr m'" by (cases "get_message (updated d mid u) mid") simp_all
qed

lemma update_message_noop:
  assumes ok: "db_ok d" and stored: "get_message d mid = Inr m"
    and sup: "supplied u" and agr: "agrees u m"
  shows "update_message d mid u = Inr (m, d)"
proof -
  from get_message_Inr[OF stored] have m_in: "m \<in> set (messages d)" and m_id: "msg_id m = mid"
    by auto
  from ok have dist: "distinct (map msg_id (messages d))"
    and keys: "distinct (map order_key (messages d))"
    by (simp_all add: db_ok_def msg_ids_def)
  from ok m_in have fk: "case parent_id m of None \<Rightarrow> True | Some p \<Rightarrow> p \<in> set (msg_ids d)"
    by (simp add: db_ok_def list_all_iff)
  have only: "\<And>r. r \<in> set (messages d) \<Longrightarrow> msg_id r = mid \<Longrightarrow> r = m"
    using distinct_ids_unique[OF dist m_in] m_id by simp
  have "map (\<lambda>r. if msg_id r = mid then apply_update u r else r) (messages d) = messages d"
    by (rule map_idI) (auto dest: only simp: apply_update_agrees[OF agr])
  then have same: "updated d mid u = d" by (simp add: updated_def)
  have no_clash: "\<not> order_clash d mid u"
  proof
    assume "order_clash d mid u"
    then obtain oi t r where oi: "u_order_index u = Some oi"
      and t: "t \<in> set (messages d)" "msg_id t = mid"
      and r: "r \<in> set (messages d)" "msg_id r \<noteq> mid" "conversation_id r = conversation_id t"
        "order_index r = oi" unfolding order_clash_iff by blast
    from only[OF t] have "t = m" .
    moreover from agr oi have "oi = order_index m" by (simp add: agrees_def)
    ultimately have "order_key r = order_key m" using r by (simp add: order_key_def)
    with keys r(1) m_in have "r = m" by (meson distinct_map inj_onD)
    with r(2) m_id show False by simp
  qed
  have no_missing: "\<not> parent_missing d mid u"
  proof (cases "u_parent_id u")
    case None then show ?thesis by (simp add: parent_missing_def)
  next
    case (Some p)
    with agr have "parent_id m = Some p" by (simp add: agrees_def)
    with fk have "p \<in> set (msg_ids d)" by simp
    with Some show ?thesis by (simp add: parent_missing_def)
  qed
  show ?thesis using sup no_clash no_missing stored by (simp add: update_message_eq same)
qed

lemma updated_twice: "updated (updated d mid u) mid u = updated d mid u"
  by (simp add: updated_def apply_update_idem)

lemma update_message_twice:
  assumes "update_message d mid u = Inr (m', d')"
  shows "update_message d' mid u = Inr (m', d')"
proof -
  let ?f = "\<lambda>r. if msg_id r = mid then apply_update u r else r"
  note facts = update_message_Inr[OF assms]
  have msgs: "messages d' = map ?f (messages d)" by (simp add: facts(4) updated_def)
  have ids: "msg_ids d' = msg_ids d" by (simp add: msgs msg_ids_def comp_def apply_update_fields cong: if_cong)
  have no_clash: "\<not> order_clash d' mid u"
  proof
    assume "order_clash d' mid u"
    then obtain oi t r where oi: "u_order_index u = Some oi"
      and t: "t \<in> set (messages d')" "msg_id t = mid"
      and r: "r \<in> set (messages d')" "msg_id r \<noteq> mid" "conversation_id r = conversation_id t"
        "order_index r = oi" unfolding order_clash_iff by blast
    from t(1) obtain t0 where t0: "t0 \<in> set (messages d)" "t = ?f t0" by (auto simp: msgs)
    from r(1) obtain r0 where r0: "r0 \<in> set (messages d)" "r = ?f r0" by (auto simp: msgs)
    from r0 r(2) have r_eq: "r = r0" by (cases "msg_id r0 = mid") (simp_all add: apply_update_fields)
    from t0 t(2) have t0_id: "msg_id t0 = mid" by (cases "msg_id t0 = mid") (simp_all add: apply_update_fields)
    from t0 have "conversation_id t = conversation_id t0"
      by (cases "msg_id t0 = mid") (simp_all add: apply_update_fields)
    with oi t0 t0_id r0(1) r r_eq have "order_clash d mid u"
      unfolding order_clash_iff by auto
    with facts(2) show False by simp
  qed
  have tg: "(filter (\<lambda>m. msg_id m = mid) (messages d') \<noteq> []) =
            (filter (\<lambda>m. msg_id m = mid) (messages d) \<noteq> [])"
  proof -
    have "(\<exists>x\<in>set (messages d'). msg_id x = mid) = (mid \<in> set (msg_ids d'))"
      by (auto simp: msg_ids_def)
    also have "\<dots> = (mid \<in> set (msg_ids d))" by (simp only: ids)
    also have "\<dots> = (\<exists>x\<in>set (messages d). msg_id x = mid)"
      by (auto simp: msg_ids_def)
    finally have "(\<exists>x\<in>set (messages d'). msg_id x = mid) = (\<exists>x\<in>set (messages d). msg_id x = mid)" .
    then show ?thesis by (simp add: filter_empty_conv)
  qed
  have no_missing: "\<not> parent_missing d' mid u"
  proof (cases "u_parent_id u")
    case None then show ?thesis by (simp add: parent_missing_def)
  next
    case (Some p)
    with facts(3) have "\<not> (filter (\<lambda>m. msg_id m = mid) (messages d) \<noteq> [] \<and> p \<notin> set (msg_ids d))"
      by (simp add: parent_missing_def)
    then have "\<not> (filter (\<lambda>m. msg_id m = mid) (messages d') \<noteq> [] \<and> p \<notin> set (msg_ids d'))"
      unfolding tg ids .
    with Some show ?thesis by (simp add: parent_missing_def)
  qed
  have same: "updated d' mid u = d'" by (simp only: facts(4) updated_twice)
  show ?thesis using facts(1) no_clash no_missing facts(5) by (simp add: update_message_eq same)
qed

lemma update_message_no_fields: "update_message d mid no_update = Inl (ValueError NoFieldProvided)"
  by (simp add: update_message_def no_update_def)


text \<open>
  C9.  On a store that satisfies the constraints of its schema and holds \<open>mid\<close> as
  \<open>m\<close>: an update that supplies at least one field, each with the value that \<open>m\<close>
  already has, succeeds, returns \<open>m\<close> and leaves the store as it was; whenever an
  update succeeds, the same update applied again succeeds with the same row and the
  same store; and the update that supplies no field raises the \<open>ValueError\<close> (the
  store is unchanged).
\<close>

theorem update_message_idempotent:
  assumes "db_ok d" and "get_message d mid = Inr m"
  shows "(supplied u \<and> agrees u m \<longrightarrow> update_message d mid u = Inr (m, d)) \<and>
         (\<forall>m' d'. update_message d mid u = Inr (m', d') \<longrightarrow>
                   update_message d' mid u = Inr (m', d')) \<and>
         update_message d mid no_update = Inl (ValueError NoFieldProvided)"
  using update_message_noop[OF assms] update_message_twice update_message_no_fields
  by blast

lemma ex_db_ok: "db_ok ex_db"
  by (simp add: db_ok_def conv_ids_def msg_ids_def order_key_def ex_defs)

lemma ex_get2: "get_message ex_db 2 = Inr ex_m2"
  by (simp add: get_message_def ex_defs)

lemma ex_same_ok: "supplied ex_same \<and> agrees ex_same ex_m2"
  by (simp add: supplied_def agrees_def no_update_def ex_defs)

lemma ex_change_run:
  "update_message ex_db 2 ex_change =
     Inr (ex_m2\<lparr>summary := Some [121, 111]\<rparr>,
          ex_db\<lparr>messages := [ex_m1, ex_m2\<lparr>summary := Some [121, 111]\<rparr>, ex_m3]\<rparr>)"
  by (simp add: update_message_def get_message_def apply_update_def no_update_def Let_def ex_defs)

theorem update_message_idempotent_witness:
  "db_ok ex_db \<and> get_message ex_db 2 = Inr ex_m2 \<and> supplied ex_same \<and> agrees ex_same ex_m2 \<and>
   update_message ex_db 2 ex_same = Inr (ex_m2, ex_db) \<and>
   (\<exists>m' d'. update_message ex_db 2 ex_change = Inr (m', d') \<and> summary m' = Some [121, 111] \<and>
      update_message d' 2 ex_change = Inr (m', d')) \<and>
   update_message ex_db 2 no_update = Inl (ValueError NoFieldProvided)"
proof -
  note a = update_message_idempotent[OF ex_db_ok ex_get2, of ex_same]
  note b = update_message_idempotent[OF ex_db_ok ex_get2, of ex_change]
  from a ex_same_ok have 1: "update_message ex_db 2 ex_same = Inr (ex_m2, ex_db)" by blast
  from b ex_change_run have 2: "\<exists>m' d'. update_message ex_db 2 ex_change = Inr (m', d') \<and>
      summary m' = Some [121, 111] \<and> update_message d' 2 ex_change = Inr (m', d')"
    by simp
  from a have 3: "update_message ex_db 2 no_update = Inl (ValueError NoFieldProvided)" by blast
  show ?thesis using ex_db_ok ex_get2 ex_same_ok 1 2 3 by blast
qed

section \<open>The reply orchestrator\<close>

lemmas ex_run_defs = ex_m0_def ex_db1_def ex_abc_def ex_down_def ex_nosummary_def ex_who_def ex_conv_def

lemma ex_stored0: "get_message ex_db1 (msg_id ex_m0) = Inr ex_m0"
  by (simp add: get_message_def ex_run_defs)


lemma ex_db1_acyclic: "acyclic (parent_rel ex_db1)"
  by (rule parents_older_acyclic) (simp add: ex_run_defs)

lemma ex_hi_upstream: "\<not> is_model_related_question ascii_lower [104, 105]"
  by (simp add: is_model_related_question_def ascii_lower_def strip_def isspace_def
      model_keywords_def judgment_patterns_def startswith_def)


lemma ex_persist: "create_message ex_empty 1 [104, 105] None None None None = Inr (ex_m0, ex_db1)"
  by (simp add: create_message_def next_order_index_def get_message_def conv_ids_def msg_ids_def
      order_key_def Let_def ex_empty_def ex_run_defs)

lemma ex_strip_abc: "strip [65, 66, 67] = [65, 66, 67]"
  by (simp add: strip_def isspace_def)


lemma find_map_id:
  assumes "\<And>x. P (f x) = P x"
  shows "find P (map f xs) = map_option f (find P xs)"
  using assms by (induction xs) auto

lemma get_message_updated:
  "get_message (updated d mid u) j =
     (case get_message d j of Inl e \<Rightarrow> Inl e
      | Inr m \<Rightarrow> Inr (if j = mid then apply_update u m else m))"
proof -
  let ?f = "\<lambda>m. if msg_id m = mid then apply_update u m else m"
  have "find (\<lambda>m. msg_id m = j) (map ?f (messages d)) = map_option ?f (find (\<lambda>m. msg_id m = j) (messages d))"
    by (rule find_map_id) (simp add: apply_update_fields)
  then have f: "get_message (updated d mid u) j =
      (case find (\<lambda>m. msg_id m = j) (messages d) of
         None \<Rightarrow> Inl (ValueError (MessageNotFound j))
       | Some m \<Rightarrow> Inr (?f m))"
    by (cases "find (\<lambda>m. msg_id m = j) (messages d)") (simp_all add: get_message_def updated_def)
  show ?thesis
  proof (cases "get_message d j")
    case (Inl e)
    then show ?thesis using f by (simp add: get_message_def split: option.splits)
  next
    case (Inr m)
    from get_message_Inr[OF Inr] have id: "msg_id m = j" by simp
    from Inr have fm: "find (\<lambda>m. msg_id m = j) (messages d) = Some m"
      by (simp add: get_message_def split: option.splits)
    have "get_message (updated d mid u) j = Inr (?f m)" unfolding f fm by simp
    also have "?f m = (if j = mid then apply_update u m else m)" using id by simp
    finally show ?thesis by (simp add: Inr)
  qed
qed

lemma update_message_fields_only:
  assumes stored: "get_message d mid = Inr m" and sup: "supplied u"
    and oi: "u_order_index u = None" and pa: "u_parent_id u = None"
  shows "update_message d mid u = Inr (apply_update u m, updated d mid u)"
proof -
  have "\<not> order_clash d mid u" using oi by (simp add: order_clash_def)
  moreover have "\<not> parent_missing d mid u" using pa by (simp add: parent_missing_def)
  moreover have "get_message (updated d mid u) mid = Inr (apply_update u m)"
    using stored by (simp add: get_message_updated)
  ultimately show ?thesis using sup by (simp add: update_message_eq)
qed

lemma updated_conversations [simp]: "conversations (updated d mid u) = conversations d"
  by (simp add: updated_def)

lemma get_conversation_updated [simp]: "get_conversation (updated d mid u) cid = get_conversation d cid"
  by (simp add: get_conversation_def)




lemma get_message_retitled [simp]: "get_message (retitled d cid t) j = get_message d j"
  by (simp add: get_message_def retitled_def)


lemma update_conversation_messages:
  "update_conversation d cid t = Inr (c, d') \<Longrightarrow> messages d' = messages d"
  by (auto simp: update_conversation_def Let_def split: option.splits sum.splits)

lemma get_message_same: "messages d' = messages d \<Longrightarrow> get_message d' j = get_message d j"
  by (simp add: get_message_def)

lemma derive_title_quiet:
  "\<exists>rest. trace (derive_title d cid content' conv um summ tr) = tr @ rest \<and> list_all quiet rest"
  unfolding derive_title_def Let_def
  by (simp add: quiet_def split: sum.splits prod.splits)

lemma derive_title_messages:
  "messages (final_db (derive_title d cid content' conv um summ tr)) = messages d"
  unfolding derive_title_def Let_def
  by (auto simp: update_conversation_messages split: sum.splits prod.splits)

lemma only_summary_facts:
  "supplied (only_summary s)" "u_order_index (only_summary s) = None"
  "u_parent_id (only_summary s) = None"
  "assistant_reply (apply_update (only_summary s) m) = assistant_reply m"
  "order_index (apply_update (only_summary s) m) = order_index m"
  "summary (apply_update (only_summary s) m) = Some s"
  by (simp_all add: only_summary_def supplied_def no_update_def apply_update_fields)

lemma only_reply_facts:
  "supplied (only_reply s)" "u_order_index (only_reply s) = None"
  "u_parent_id (only_reply s) = None"
  "assistant_reply (apply_update (only_reply s) m) = Some s"
  "order_index (apply_update (only_reply s) m) = order_index m"
  "summary (apply_update (only_reply s) m) = summary m"
  by (simp_all add: only_reply_def supplied_def no_update_def apply_update_fields)

lemma update_summary_run:
  "get_message d mid = Inr m \<Longrightarrow>
   update_message d mid (only_summary s) =
     Inr (apply_update (only_summary s) m, updated d mid (only_summary s))"
  by (rule update_message_fields_only) (simp_all add: only_summary_facts)

lemma update_reply_run:
  "get_message d mid = Inr m \<Longrightarrow>
   update_message d mid (only_reply s) =
     Inr (apply_update (only_reply s) m, updated d mid (only_reply s))"
  by (rule update_message_fields_only) (simp_all add: only_reply_facts)

lemma derive_summary_quiet:
  assumes "get_message d (msg_id um) = Inr m"
  shows "\<exists>rest. trace (derive_summary client d cid content' conv um tr) = tr @ rest \<and>
           list_all quiet rest"
proof -
  let ?res = "complete_fn client (summary_prompt content') (2 / 10)"
  let ?tr1 = "tr @ [Invoked (CompleteCall (summary_prompt content') (2 / 10))]"
  show ?thesis
  proof (cases ?res)
    case (Inl e)
    show ?thesis
    proof (cases e)
      case (LLMClientError x)
      from derive_title_quiet[of d cid content' conv um None ?tr1]
      obtain rest where "trace (derive_title d cid content' conv um None ?tr1) = ?tr1 @ rest"
        "list_all quiet rest" by blast
      with Inl LLMClientError show ?thesis
        by (simp add: derive_summary_def Let_def quiet_def)
    qed (use Inl in \<open>simp_all add: derive_summary_def Let_def quiet_def\<close>)
  next
    case (Inr c)
    show ?thesis
    proof (cases "strip c = []")
      case True
      from derive_title_quiet[of d cid content' conv um "Some []" ?tr1]
      obtain rest where "trace (derive_title d cid content' conv um (Some []) ?tr1) = ?tr1 @ rest"
        "list_all quiet rest" by blast
      with Inr True show ?thesis
        by (simp add: derive_summary_def Let_def quiet_def)
    next
      case False
      let ?s = "take 255 (strip c)"
      let ?tr2 = "?tr1 @ [Stored (SetSummary (msg_id um) ?s)]"
      let ?d' = "updated d (msg_id um) (only_summary ?s)"
      let ?um' = "apply_update (only_summary ?s) m"
      from derive_title_quiet[of ?d' cid content' conv ?um' "Some ?s" ?tr2]
      obtain rest where "trace (derive_title ?d' cid content' conv ?um' (Some ?s) ?tr2) = ?tr2 @ rest"
        "list_all quiet rest" by blast
      with Inr False update_summary_run[OF assms, of ?s] show ?thesis
        by (simp add: derive_summary_def Let_def quiet_def only_summary_def[symmetric])
    qed
  qed
qed

lemma derive_summary_reply_kept:
  assumes "get_message d (msg_id um) = Inr m"
  shows "\<exists>m'. get_message (final_db (derive_summary client d cid content' conv um tr)) (msg_id um) = Inr m' \<and>
           assistant_reply m' = assistant_reply m"
proof -
  let ?res = "complete_fn client (summary_prompt content') (2 / 10)"
  let ?tr1 = "tr @ [Invoked (CompleteCall (summary_prompt content') (2 / 10))]"
  note same = get_message_same[OF derive_title_messages]
  show ?thesis
  proof (cases ?res)
    case (Inl e)
    show ?thesis
      by (cases e) (use Inl assms in \<open>simp_all add: derive_summary_def Let_def same\<close>)
  next
    case (Inr c)
    show ?thesis
    proof (cases "strip c = []")
      case True
      with Inr assms show ?thesis by (simp add: derive_summary_def Let_def same)
    next
      case False
      let ?s = "take 255 (strip c)"
      have "get_message (updated d (msg_id um) (only_summary ?s)) (msg_id um) =
              Inr (apply_update (only_summary ?s) m)"
        using assms by (simp add: get_message_updated)
      with Inr False update_summary_run[OF assms, of ?s] show ?thesis
        by (simp add: derive_summary_def Let_def same only_summary_def[symmetric] only_summary_facts)
    qed
  qed
qed

lemma path_exists:
  assumes "acyclic (parent_rel d)"
  shows "\<exists>history. get_message_path_to_root d i = Some history"
proof -
  have "wf (parent_rel d)" using finite_parent_rel assms by (rule finite_acyclic_wf)
  then obtain ys where "ascent d (Some i) ys" using chain_exists by blast
  from walk_chain[OF this, of "[]"] show ?thesis by (simp add: get_message_path_to_root_def)
qed

lemma frames_of_deltas:
  "concat (map (\<lambda>ev. case ev of Emitted f \<Rightarrow> [f] | _ \<Rightarrow> []) (map (\<lambda>x. Emitted (Delta x)) ds)) = map Delta ds"
  by (induction ds) auto

lemma writes_of_deltas:
  "concat (map (\<lambda>ev. case ev of Stored w \<Rightarrow> [w] | _ \<Rightarrow> []) (map (\<lambda>x. Emitted (Delta x)) ds)) = []"
  by (induction ds) auto

lemma calls_of_deltas:
  "concat (map (\<lambda>ev. case ev of Invoked c \<Rightarrow> [c] | _ \<Rightarrow> []) (map (\<lambda>x. Emitted (Delta x)) ds)) = []"
  by (induction ds) auto

lemma frames_of_quiet:
  "list_all quiet rest \<Longrightarrow> concat (map (\<lambda>ev. case ev of Emitted f \<Rightarrow> [f] | _ \<Rightarrow> []) rest) = []"
  by (induction rest) (auto simp: quiet_def split: event.splits)

lemma relay_success:
  assumes "stream_fn client (llm_prompt history) temp = (deltas, None)"
    and "get_message d (msg_id um) = Inr um"
  shows "relay client d cid content' conv temp um history tr =
     derive_summary client (updated d (msg_id um) (only_reply (strip (concat deltas)))) cid content'
       conv (apply_update (only_reply (strip (concat deltas))) um)
       (tr @ [Invoked (StreamCall (llm_prompt history) temp)] @ map (\<lambda>x. Emitted (Delta x)) deltas
          @ [Emitted Done, Stored (SetReply (msg_id um) (strip (concat deltas)))])"
  using assms(1) update_reply_run[OF assms(2), of "strip (concat deltas)"]
  by (simp add: relay_def Let_def only_reply_def[symmetric])

lemma relay_failure:
  assumes "stream_fn client (llm_prompt history) temp = (deltas, Some (LLMClientError msg))"
  shows "relay client d cid content' conv temp um history tr =
     \<lparr>trace = tr @ [Invoked (StreamCall (llm_prompt history) temp)]
               @ map (\<lambda>x. Emitted (Delta x)) deltas @ [Emitted (ErrorFrame (s_request_error @ msg))],
      final_db = d, raised = None\<rparr>"
  using assms by (simp add: relay_def Let_def)

lemma upstream_branch:
  assumes "\<not> is_model_related_question lower content'"
    and "get_message_path_to_root d (msg_id um) = Some history"
  shows "stream_llm_reply lower client d cid content' conv temp um =
     Some (relay client d cid content' conv temp um history [Emitted (MessageId (msg_id um))])"
  using assms by (simp add: stream_llm_reply_def Let_def)

text \<open>
  C1.  In the upstream branch (the content is no identity question), for a stored user
  message on a store with acyclic parent links, the walk to the root returns a history,
  and whenever the stream for that history yields the fragments \<open>deltas\<close> and ends
  without error: the frames are the message id, one delta frame for each fragment in
  the order of arrival, and the done frame, and nothing after it; the reply is written
  after the done frame; and in the final store the message's \<open>assistant_reply\<close> is the
  concatenation of the fragments, stripped.
\<close>

theorem relay_order:
  assumes stored: "get_message d (msg_id um) = Inr um"
    and acyc: "acyclic (parent_rel d)"
    and upstream: "\<not> is_model_related_question lower content'"
  shows "\<exists>history. get_message_path_to_root d (msg_id um) = Some history \<and>
     (\<forall>deltas. stream_fn client (llm_prompt history) temp = (deltas, None) \<longrightarrow>
        (\<exists>r rest m'.
           stream_llm_reply lower client d cid content' conv temp um = Some r \<and>
           frames r = MessageId (msg_id um) # map Delta deltas @ [Done] \<and>
           trace r = Emitted (MessageId (msg_id um)) # Invoked (StreamCall (llm_prompt history) temp) #
                     map (\<lambda>x. Emitted (Delta x)) deltas @
                     [Emitted Done, Stored (SetReply (msg_id um) (strip (concat deltas)))] @ rest \<and>
           get_message (final_db r) (msg_id um) = Inr m' \<and>
           assistant_reply m' = Some (strip (concat deltas))))"
proof -
  from path_exists[OF acyc] obtain history
    where h: "get_message_path_to_root d (msg_id um) = Some history" by blast
  show ?thesis
  proof (intro exI[of _ history] conjI allI impI)
    show "get_message_path_to_root d (msg_id um) = Some history" by (rule h)
  next
    fix deltas
    assume s: "stream_fn client (llm_prompt history) temp = (deltas, None)"
    let ?R = "strip (concat deltas)"
    let ?d1 = "updated d (msg_id um) (only_reply ?R)"
    let ?um1 = "apply_update (only_reply ?R) um"
    let ?tr = "[Emitted (MessageId (msg_id um))] @ [Invoked (StreamCall (llm_prompt history) temp)]
                 @ map (\<lambda>x. Emitted (Delta x)) deltas
                 @ [Emitted Done, Stored (SetReply (msg_id um) ?R)]"
    let ?r = "derive_summary client ?d1 cid content' conv ?um1 ?tr"
    have run: "stream_llm_reply lower client d cid content' conv temp um = Some ?r"
      by (simp only: upstream_branch[OF upstream h] relay_success[OF s stored])
    have id1: "msg_id ?um1 = msg_id um" by (simp add: apply_update_fields)
    have st1: "get_message ?d1 (msg_id ?um1) = Inr ?um1"
      using stored by (simp add: get_message_updated id1)
    from derive_summary_quiet[OF st1, of client cid content' conv ?tr]
    obtain rest where rest: "trace ?r = ?tr @ rest" "list_all quiet rest" by blast
    from derive_summary_reply_kept[OF st1, of client cid content' conv ?tr]
    obtain m' where m': "get_message (final_db ?r) (msg_id um) = Inr m'"
      "assistant_reply m' = Some ?R"
      by (auto simp: id1 only_reply_facts)
    have fr: "frames ?r = MessageId (msg_id um) # map Delta deltas @ [Done]"
      unfolding frames_def rest(1)
      by (simp add: frames_of_deltas frames_of_quiet[OF rest(2)] del: map_map)
    have tr: "trace ?r = Emitted (MessageId (msg_id um)) # Invoked (StreamCall (llm_prompt history) temp) #
                     map (\<lambda>x. Emitted (Delta x)) deltas @
                     [Emitted Done, Stored (SetReply (msg_id um) ?R)] @ rest"
      unfolding rest(1) by simp
    show "\<exists>r rest m'.
           stream_llm_reply lower client d cid content' conv temp um = Some r \<and>
           frames r = MessageId (msg_id um) # map Delta deltas @ [Done] \<and>
           trace r = Emitted (MessageId (msg_id um)) # Invoked (StreamCall (llm_prompt history) temp) #
                     map (\<lambda>x. Emitted (Delta x)) deltas @
                     [Emitted Done, Stored (SetReply (msg_id um) (strip (concat deltas)))] @ rest \<and>
           get_message (final_db r) (msg_id um) = Inr m' \<and>
           assistant_reply m' = Some (strip (concat deltas))"
      using run fr tr m' by blast
  qed
qed

theorem relay_order_witness:
  "get_message ex_db1 (msg_id ex_m0) = Inr ex_m0 \<and> acyclic (parent_rel ex_db1) \<and>
   \<not> is_model_related_question ascii_lower [104, 105] \<and>
   (\<exists>r m'. stream_llm_reply ascii_lower ex_abc ex_db1 1 [104, 105] ex_conv 1 ex_m0 = Some r \<and>
      frames r = [MessageId 1, Delta [65], Delta [66], Delta [67], Done] \<and>
      get_message (final_db r) 1 = Inr m' \<and> assistant_reply m' = Some [65, 66, 67])"
proof -
  from relay_order[OF ex_stored0 ex_db1_acyclic ex_hi_upstream, of ex_abc 1 1 ex_conv]
  obtain history where
    h: "\<forall>deltas. stream_fn ex_abc (llm_prompt history) 1 = (deltas, None) \<longrightarrow>
        (\<exists>r rest m'.
           stream_llm_reply ascii_lower ex_abc ex_db1 1 [104, 105] ex_conv 1 ex_m0 = Some r \<and>
           frames r = MessageId (msg_id ex_m0) # map Delta deltas @ [Done] \<and>
           trace r = Emitted (MessageId (msg_id ex_m0)) # Invoked (StreamCall (llm_prompt history) 1) #
                     map (\<lambda>x. Emitted (Delta x)) deltas @
                     [Emitted Done, Stored (SetReply (msg_id ex_m0) (strip (concat deltas)))] @ rest \<and>
           get_message (final_db r) (msg_id ex_m0) = Inr m' \<and>
           assistant_reply m' = Some (strip (concat deltas)))" by blast
  have s: "stream_fn ex_abc (llm_prompt history) 1 = ([[65], [66], [67]], None)"
    by (simp add: ex_abc_def)
  from h[rule_format, OF s] obtain r m' where
    "stream_llm_reply ascii_lower ex_abc ex_db1 1 [104, 105] ex_conv 1 ex_m0 = Some r"
    "frames r = MessageId (msg_id ex_m0) # map Delta [[65], [66], [67]] @ [Done]"
    "get_message (final_db r) (msg_id ex_m0) = Inr m'"
    "assistant_reply m' = Some (strip (concat [[65], [66], [67]]))" by blast
  then have "\<exists>r m'. stream_llm_reply ascii_lower ex_abc ex_db1 1 [104, 105] ex_conv 1 ex_m0 = Some r \<and>
      frames r = [MessageId 1, Delta [65], Delta [66], Delta [67], Done] \<and>
      get_message (final_db r) 1 = Inr m' \<and> assistant_reply m' = Some [65, 66, 67]"
    by (simp add: ex_strip_abc ex_m0_def)
  with ex_stored0 ex_db1_acyclic ex_hi_upstream show ?thesis by blast
qed

lemma create_message_stored:
  assumes "create_message d cid c oi s p r = Inr (m, d')"
  shows "get_message d' (msg_id m) = Inr m"
proof -
  let ?i = "fold max (msg_ids d) (msg_seq d) + 1"
  note facts = create_message_Inr[OF assms]
  have id: "msg_id m = ?i" by (subst facts(1)) simp
  have fresh: "\<forall>x\<in>set (messages d). msg_id x \<noteq> ?i"
    using fold_max_ge[of "msg_seq d" "msg_ids d"] by (fastforce simp: msg_ids_def)
  have "find (\<lambda>x. msg_id x = ?i) (messages d @ [m]) = Some m"
    by (rule find_append_fresh) (use fresh id in auto)
  then show ?thesis by (subst facts(2)) (simp add: get_message_def id)
qed

lemma create_message_reply:
  assumes "create_message d cid c oi s p r = Inr (m, d')"
  shows "assistant_reply m = r"
  by (subst create_message_Inr(1)[OF assms]) simp


text \<open>
  C4.  Let the persist step \<open>create_message\<close> (without a reply) give the user message
  \<open>um\<close> and the store \<open>d\<close>.  Then \<open>um\<close> is stored with no \<open>assistant_reply\<close>, and in the
  upstream branch, whenever the stream raises \<open>LLMClientError\<close> after the fragments
  \<open>deltas\<close>: the frames are the message id, the deltas that arrived and one error
  frame; there is no done frame; the only call of the client is the stream (no
  summary); nothing is written and the store is still \<open>d\<close>; no exception leaves the
  generator; and with no fragment the frames are exactly the message id and the error.
\<close>

theorem upstream_failure:
  assumes persist: "create_message d0 cid content' None None parent None = Inr (um, d)"
    and acyc: "acyclic (parent_rel d)"
    and upstream: "\<not> is_model_related_question lower content'"
  shows "get_message d (msg_id um) = Inr um \<and> assistant_reply um = None \<and>
     (\<exists>history. get_message_path_to_root d (msg_id um) = Some history \<and>
        (\<forall>deltas msg.
           stream_fn client (llm_prompt history) temp = (deltas, Some (LLMClientError msg)) \<longrightarrow>
           (\<exists>r. stream_llm_reply lower client d cid content' conv temp um = Some r \<and>
                frames r = MessageId (msg_id um) # map Delta deltas @ [ErrorFrame (s_request_error @ msg)] \<and>
                Done \<notin> set (frames r) \<and>
                calls r = [StreamCall (llm_prompt history) temp] \<and>
                writes r = [] \<and> final_db r = d \<and> raised r = None \<and>
                (deltas = [] \<longrightarrow>
                   frames r = [MessageId (msg_id um), ErrorFrame (s_request_error @ msg)]))))"
proof -
  from path_exists[OF acyc] obtain history
    where h: "get_message_path_to_root d (msg_id um) = Some history" by blast
  have main: "\<exists>r. stream_llm_reply lower client d cid content' conv temp um = Some r \<and>
                frames r = MessageId (msg_id um) # map Delta deltas @ [ErrorFrame (s_request_error @ msg)] \<and>
                Done \<notin> set (frames r) \<and>
                calls r = [StreamCall (llm_prompt history) temp] \<and>
                writes r = [] \<and> final_db r = d \<and> raised r = None \<and>
                (deltas = [] \<longrightarrow>
                   frames r = [MessageId (msg_id um), ErrorFrame (s_request_error @ msg)])"
    if s: "stream_fn client (llm_prompt history) temp = (deltas, Some (LLMClientError msg))"
    for deltas msg
  proof -
    define r where "r = \<lparr>trace = [Emitted (MessageId (msg_id um))] @ [Invoked (StreamCall (llm_prompt history) temp)]
               @ map (\<lambda>x. Emitted (Delta x)) deltas @ [Emitted (ErrorFrame (s_request_error @ msg))],
      final_db = d, raised = None\<rparr>"
    have run: "stream_llm_reply lower client d cid content' conv temp um = Some r"
      unfolding r_def by (simp only: upstream_branch[OF upstream h] relay_failure[OF s])
    have fr: "frames r = MessageId (msg_id um) # map Delta deltas @ [ErrorFrame (s_request_error @ msg)]"
      unfolding r_def by (simp add: frames_def frames_of_deltas del: map_map)
    have ca: "calls r = [StreamCall (llm_prompt history) temp]"
      unfolding r_def by (simp add: calls_def calls_of_deltas del: map_map)
    have wr: "writes r = []"
      unfolding r_def by (simp add: writes_def writes_of_deltas del: map_map)
    have nd: "Done \<notin> set (frames r)" unfolding fr by auto
    have e: "deltas = [] \<longrightarrow> frames r = [MessageId (msg_id um), ErrorFrame (s_request_error @ msg)]"
      unfolding fr by simp
    have fd: "final_db r = d" and ra: "raised r = None" unfolding r_def by simp_all
    show ?thesis
      using run fr ca wr nd e fd ra by blast
  qed
  show ?thesis
    using create_message_stored[OF persist] create_message_reply[OF persist] h main by blast
qed

theorem upstream_failure_witness:
  "create_message ex_empty 1 [104, 105] None None None None = Inr (ex_m0, ex_db1) \<and>
   acyclic (parent_rel ex_db1) \<and> \<not> is_model_related_question ascii_lower [104, 105] \<and>
   get_message ex_db1 1 = Inr ex_m0 \<and> assistant_reply ex_m0 = None \<and>
   (\<exists>r. stream_llm_reply ascii_lower ex_down ex_db1 1 [104, 105] ex_conv 1 ex_m0 = Some r \<and>
      frames r = [MessageId 1, Delta [65], ErrorFrame (s_request_error @ [120])] \<and>
      writes r = [] \<and> final_db r = ex_db1 \<and> raised r = None)"
proof -
  from upstream_failure[OF ex_persist ex_db1_acyclic ex_hi_upstream, of ex_down 1 ex_conv]
  obtain history where
    a: "get_message ex_db1 (msg_id ex_m0) = Inr ex_m0" "assistant_reply ex_m0 = None"
    and h: "\<forall>deltas msg.
           stream_fn ex_down (llm_prompt history) 1 = (deltas, Some (LLMClientError msg)) \<longrightarrow>
           (\<exists>r. stream_llm_reply ascii_lower ex_down ex_db1 1 [104, 105] ex_conv 1 ex_m0 = Some r \<and>
                frames r = MessageId (msg_id ex_m0) # map Delta deltas @ [ErrorFrame (s_request_error @ msg)] \<and>
                Done \<notin> set (frames r) \<and>
                calls r = [StreamCall (llm_prompt history) 1] \<and>
                writes r = [] \<and> final_db r = ex_db1 \<and> raised r = None \<and>
                (deltas = [] \<longrightarrow>
                   frames r = [MessageId (msg_id ex_m0), ErrorFrame (s_request_error @ msg)]))"
    by blast
  have s: "stream_fn ex_down (llm_prompt history) 1 = ([[65]], Some (LLMClientError [120]))"
    by (simp add: ex_down_def)
  from h[rule_format, OF s] obtain r where
    "stream_llm_reply ascii_lower ex_down ex_db1 1 [104, 105] ex_conv 1 ex_m0 = Some r"
    "frames r = MessageId (msg_id ex_m0) # map Delta [[65]] @ [ErrorFrame (s_request_error @ [120])]"
    "writes r = []" "final_db r = ex_db1" "raised r = None" by blast
  then have "\<exists>r. stream_llm_reply ascii_lower ex_down ex_db1 1 [104, 105] ex_conv 1 ex_m0 = Some r \<and>
      frames r = [MessageId 1, Delta [65], ErrorFrame (s_request_error @ [120])] \<and>
      writes r = [] \<and> final_db r = ex_db1 \<and> raised r = None"
    by (simp add: ex_m0_def)
  moreover from a have "get_message ex_db1 1 = Inr ex_m0" by (simp add: ex_m0_def)
  ultimately show ?thesis using ex_persist ex_db1_acyclic ex_hi_upstream a(2) by blast
qed
















section \<open>The upstream chat client\<close>

lemmas sse_defs = sse_line_def startswith_def strip_def isspace_def s_data_def s_DONE_def
  s_choices_def s_delta_def s_content_def or_else_def ex_loads_def ex_payload_def

lemma sse_line_ignored:
  "line = [] \<or> \<not> startswith line s_data \<Longrightarrow> sse_line loads line = Continue"
  by (auto simp: sse_line_def)

lemma sse_line_done:
  "line \<noteq> [] \<Longrightarrow> startswith line s_data \<Longrightarrow> strip (drop 5 line) = s_DONE \<Longrightarrow>
   sse_line loads line = Return"
  by (simp add: sse_line_def)

lemma sse_line_malformed:
  "line \<noteq> [] \<Longrightarrow> startswith line s_data \<Longrightarrow> strip (drop 5 line) \<noteq> s_DONE \<Longrightarrow>
   loads (strip (drop 5 line)) = None \<Longrightarrow> sse_line loads line = Continue"
  by (simp add: sse_line_def)

lemma sse_line_content:
  assumes "line \<noteq> []" "startswith line s_data" "strip (drop 5 line) \<noteq> s_DONE"
    and "loads (strip (drop 5 line)) = Some (JObj kvs)"
    and "map_of kvs s_choices = Some (JArr (JObj first # others))"
    and "map_of first s_delta = Some (JObj dl)"
    and "map_of dl s_content = Some v"
  shows "sse_line loads line = (if truthy v then Yield v else Continue)"
  using assms by (cases dl) (simp_all add: sse_line_def or_else_def)

lemma post_stream_connect_failed:
  "post_stream loads (ConnectFailed msg) = ([], Some (LLMClientError (s_request_failed @ msg)))"
  by (simp add: post_stream_def)

lemma post_stream_read_error:
  "iter_sse loads lines = (vs, Exhausted) \<Longrightarrow>
   post_stream loads (Responded True lines (Some msg)) =
     (vs, Some (LLMClientError (s_request_failed @ msg)))"
  by (simp add: post_stream_def)

lemma ex_stream_well_formed:
  "stream ex_loads (\<lambda>ms t. Responded True ex_lines None) ex_prompt 1 = ([JStr [65]], None)"
  by (simp add: stream_def normalize_messages_def falsy_str_def entry_def post_stream_def
      ex_prompt_def ex_lines_def s_user_def sse_defs)

text \<open>
  C6.  Two streams on which \<open>stream\<close> ends with an exception that is not
  \<open>LLMClientError\<close>.  A response with an error status: the handler of
  \<open>HTTPStatusError\<close> reads \<open>.text\<close> of the unread streamed response, so
  \<open>ResponseNotRead\<close> leaves the generator.  A body whose first data line carries the
  JSON number 123: \<open>parsed.get\<close> raises \<open>AttributeError\<close>, and the fragment of the
  next line is never yielded.  (The lemmas above are the parts that hold: other lines
  are skipped, the sentinel ends the stream, a decode error skips the line, a content
  is yielded when it is truthy, and connection and read errors become
  \<open>LLMClientError\<close>.)
\<close>

theorem stream_status_error_escapes:
  "stream ex_loads (\<lambda>ms t. Responded False [] None) ex_prompt 1 = ([], Some ResponseNotRead) \<and>
   stream ex_loads
     (\<lambda>ms t. Responded True [[100, 97, 116, 97, 58, 32, 49, 50, 51],
                              [100, 97, 116, 97, 58, 32] @ ex_payload] None)
     ex_prompt 1 = ([], Some AttributeError)"
  by (simp add: stream_def normalize_messages_def falsy_str_def entry_def post_stream_def
      ex_prompt_def s_user_def sse_defs)

end
